theory Spec2Isabelle
  imports Main
begin

section \<open>JavaScript values and errors\<close>

text \<open>
  The service is JavaScript: the guards of \<open>update\<close> test the truthiness of
  arbitrary values and \<open>setMetadata\<close> tests \<open>typeof key\<close>, so the values a caller can
  pass are modelled as a datatype. Numbers are restricted to the integers and NaN.
\<close>

datatype jsval =
    JUndefined
  | JNull
  | JBool bool
  | JNum int
  | JNaN
  | JStr string
  | JArr "jsval list"
  | JObj "(string \<times> jsval) list"

text \<open>What \<open>if (v)\<close> tests: every object and array is truthy, also the empty ones.\<close>

fun truthy :: "jsval \<Rightarrow> bool" where
  "truthy JUndefined = False"
| "truthy JNull = False"
| "truthy (JBool b) = b"
| "truthy (JNum n) = (n \<noteq> 0)"
| "truthy JNaN = False"
| "truthy (JStr s) = (s \<noteq> [])"
| "truthy (JArr xs) = True"
| "truthy (JObj kvs) = True"

text \<open>Reading a property of an object literal: \<open>undefined\<close> when the key is absent.\<close>

definition js_get :: "(string \<times> jsval) list \<Rightarrow> string \<Rightarrow> jsval" where
  "js_get obj k = (case map_of obj k of None \<Rightarrow> JUndefined | Some v \<Rightarrow> v)"

text \<open>\<open>MedusaError.Types\<close>, as far as this service uses them.\<close>

datatype error_type = INVALID_ARGUMENT | INVALID_DATA | NOT_FOUND | DB_ERROR

text \<open>
  What a call can throw or reject with: a \<open>MedusaError\<close> of the service, a
  \<open>TypeError\<close> of the JavaScript runtime, or the rejection of a collaborator that the
  service passes on as it is (only its message is kept).
\<close>

datatype error =
    MedusaError error_type string
  | TypeError string
  | Rejected string

section \<open>Documents, collaborators and the document store\<close>

type_synonym id = string

record profile =
  profile_id :: id
  name :: string
  products :: "id list"
  shipping_options :: "id list"
  metadata :: "(string \<times> jsval) list"

record product =
  product_id :: id
  title :: string

record shipping_option =
  option_id :: id
  option_name :: string
  region_id :: id

text \<open>
  A line item's \<open>content\<close> is either one object with a \<open>product\<close> or an array of such
  objects (\<open>Array.isArray(next.content)\<close>).
\<close>

datatype content = Single product | Bundle "product list"

record line_item =
  content :: content

record cart =
  items :: "line_item list"

text \<open>The selectors and patches the service sends to the store, and the calls it makes.\<close>

datatype selector =
    ById id
  | ByShippingOption id
  | ByProductsIn "id list"

datatype patch =
    Set "(string \<times> jsval) list"
  | PushProducts id
  | PushShippingOptions id
  | PullProducts id
  | PullShippingOptions id

datatype call =
    Find selector
  | FindOne id
  | UpdateOne id patch
  | DeleteOne id

text \<open>
  The state behind \<open>profileModel_\<close>: the stored documents, a script of the outcomes of
  the coming storage calls (\<open>Some msg\<close>: the call rejects with an error whose message is
  \<open>msg\<close>; \<open>None\<close> or an exhausted script: it goes through), and the log of the storage
  calls made so far.
\<close>

record store =
  docs :: "profile list"
  faults :: "string option list"
  log :: "call list"

type_synonym 'a result = "(error + 'a) \<times> store"

text \<open>
  The dependencies the constructor receives, apart from the store's state:
  \<open>Validator.objectId().validate\<close> of medusa-core-utils (\<open>None\<close>: it reports an error,
  \<open>Some v\<close>: the validated value), the way the store assigns the fields of a \<open>$set\<close>
  to a document, and the product and shipping-option services.
\<close>

record deps =
  objectId :: "string \<Rightarrow> string option"
  profileModel_set :: "(string \<times> jsval) list \<Rightarrow> profile \<Rightarrow> profile"
  productService_retrieve :: "id \<Rightarrow> error + product"
  shippingOptionService_retrieve :: "id \<Rightarrow> error + shipping_option"
  shippingOptionService_validateCartOption :: "id \<Rightarrow> cart \<Rightarrow> error + shipping_option"

text \<open>
  Modelled from the spec: the document store is an external collaborator (section 6)
  whose calls can fail with an underlying fault. Every storage call is logged and
  consumes one entry of the fault script.
\<close>

definition access :: "call \<Rightarrow> store \<Rightarrow> string option \<times> store" where
  "access c s =
     (case faults s of
        [] \<Rightarrow> (None, s\<lparr>log := log s @ [c]\<rparr>)
      | f # fs \<Rightarrow> (f, s\<lparr>faults := fs, log := log s @ [c]\<rparr>))"

text \<open>
  Modelled from the spec: the selectors of section 6, equality on the identifier and
  set membership on the product and option lists.
\<close>

fun matches :: "selector \<Rightarrow> profile \<Rightarrow> bool" where
  "matches (ById i) p = (profile_id p = i)"
| "matches (ByShippingOption oid) p = (oid \<in> set (shipping_options p))"
| "matches (ByProductsIn ps) p = list_ex (\<lambda>x. x \<in> set ps) (products p)"

text \<open>
  Modelled from the spec: \<open>updateOne\<close> and \<open>deleteOne\<close> of section 6 act on one
  document, the first with the identifier; \<open>$push\<close> appends to an array field,
  \<open>$pull\<close> removes every occurrence of the value, and \<open>$set\<close> assigns the fields the
  way the model (a parameter here) does.
\<close>

fun update_first :: "id \<Rightarrow> (profile \<Rightarrow> profile) \<Rightarrow> profile list \<Rightarrow> profile list" where
  "update_first i f [] = []"
| "update_first i f (p # ps) =
     (if profile_id p = i then f p # ps else p # update_first i f ps)"

fun delete_first :: "id \<Rightarrow> profile list \<Rightarrow> profile list" where
  "delete_first i [] = []"
| "delete_first i (p # ps) = (if profile_id p = i then ps else p # delete_first i ps)"

fun apply_patch :: "((string \<times> jsval) list \<Rightarrow> profile \<Rightarrow> profile) \<Rightarrow> patch \<Rightarrow> profile \<Rightarrow> profile" where
  "apply_patch setf (Set kvs) p = setf kvs p"
| "apply_patch setf (PushProducts x) p = p\<lparr>products := products p @ [x]\<rparr>"
| "apply_patch setf (PushShippingOptions x) p = p\<lparr>shipping_options := shipping_options p @ [x]\<rparr>"
| "apply_patch setf (PullProducts x) p = p\<lparr>products := removeAll x (products p)\<rparr>"
| "apply_patch setf (PullShippingOptions x) p = p\<lparr>shipping_options := removeAll x (shipping_options p)\<rparr>"

text \<open>
  Modelled from the spec: the document store of section 6 (the mongoose model behind
  \<open>profileModel_\<close> is not among the sources). \<open>find\<close> returns the documents matching
  the selector in stored order, an array field matching a value it contains and
  \<open>$in\<close> matching any of the listed values.
\<close>

definition find_docs :: "selector \<Rightarrow> store \<Rightarrow> (string + profile list) \<times> store" where
  "find_docs sel s =
     (case access (Find sel) s of
        (Some msg, s') \<Rightarrow> (Inl msg, s')
      | (None, s') \<Rightarrow> (Inr (filter (matches sel) (docs s')), s'))"

text \<open>
  Modelled from the spec: \<open>findOne\<close> of the document store of section 6, by identifier:
  the first matching document, or absent.
\<close>

definition findOne :: "id \<Rightarrow> store \<Rightarrow> (string + profile option) \<times> store" where
  "findOne i s =
     (case access (FindOne i) s of
        (Some msg, s') \<Rightarrow> (Inl msg, s')
      | (None, s') \<Rightarrow> (Inr (find (\<lambda>p. profile_id p = i) (docs s')), s'))"

text \<open>
  Modelled from the spec: \<open>updateOne\<close> of the document store of section 6: the patch is
  applied to the first document with the identifier; no match is not an error.
  \<open>$push\<close> appends to the array field and \<open>$pull\<close> removes every occurrence.
\<close>

definition updateOne ::
  "((string \<times> jsval) list \<Rightarrow> profile \<Rightarrow> profile) \<Rightarrow> id \<Rightarrow> patch \<Rightarrow> store \<Rightarrow> (string + unit) \<times> store" where
  "updateOne setf i pt s =
     (case access (UpdateOne i pt) s of
        (Some msg, s') \<Rightarrow> (Inl msg, s')
      | (None, s') \<Rightarrow> (Inr (), s'\<lparr>docs := update_first i (apply_patch setf pt) (docs s')\<rparr>))"

text \<open>
  Modelled from the spec: \<open>deleteOne\<close> of the document store of section 6: removes the
  first document with the identifier; no match is not an error.
\<close>

definition deleteOne :: "id \<Rightarrow> store \<Rightarrow> (string + unit) \<times> store" where
  "deleteOne i s =
     (case access (DeleteOne i) s of
        (Some msg, s') \<Rightarrow> (Inl msg, s')
      | (None, s') \<Rightarrow> (Inr (), s'\<lparr>docs := delete_first i (docs s')\<rparr>))"

section \<open>ShippingProfileService\<close>

definition validateId :: "deps \<Rightarrow> string \<Rightarrow> error + id" where
  "validateId d rawId =
     (case objectId d rawId of
        None \<Rightarrow> Inl (MedusaError INVALID_ARGUMENT ''The profileId could not be casted to an ObjectId'')
      | Some v \<Rightarrow> Inr v)"

text \<open>\<open>list\<close> hands the selector to \<open>find\<close>; a rejection is passed on unwrapped.\<close>

definition list :: "selector \<Rightarrow> store \<Rightarrow> (profile list) result" where
  "list sel s =
     (case find_docs sel s of
        (Inl msg, s') \<Rightarrow> (Inl (Rejected msg), s')
      | (Inr ps, s') \<Rightarrow> (Inr ps, s'))"

definition retrieve :: "deps \<Rightarrow> string \<Rightarrow> store \<Rightarrow> profile result" where
  "retrieve d profileId s =
     (case validateId d profileId of
        Inl e \<Rightarrow> (Inl e, s)
      | Inr validatedId \<Rightarrow>
          (case findOne validatedId s of
             (Inl msg, s') \<Rightarrow> (Inl (MedusaError DB_ERROR msg), s')
           | (Inr None, s') \<Rightarrow>
               (Inl (MedusaError NOT_FOUND (''Shipping Profile with '' @ profileId @ '' was not found'')), s')
           | (Inr (Some p), s') \<Rightarrow> (Inr p, s')))"

definition update :: "deps \<Rightarrow> string \<Rightarrow> (string \<times> jsval) list \<Rightarrow> store \<Rightarrow> unit result" where
  "update d profileId upd s =
     (case validateId d profileId of
        Inl e \<Rightarrow> (Inl e, s)
      | Inr validatedId \<Rightarrow>
          if truthy (js_get upd ''metadata'') then
            (Inl (MedusaError INVALID_DATA ''Use setMetadata to update metadata fields''), s)
          else if truthy (js_get upd ''products'') then
            (Inl (MedusaError INVALID_DATA ''Use addProduct, removeProduct to update the products field''), s)
          else if truthy (js_get upd ''shipping_options'') then
            (Inl (MedusaError INVALID_DATA
               ''Use addShippingOption, removeShippingOption to update the shipping_options field''), s)
          else
            (case updateOne (profileModel_set d) validatedId (Set upd) s of
               (Inl msg, s') \<Rightarrow> (Inl (MedusaError DB_ERROR msg), s')
             | (Inr r, s') \<Rightarrow> (Inr r, s')))"

text \<open>The \<open>catch\<close> around \<open>retrieve\<close> has no condition: every error of it ends the call.\<close>

definition delete :: "deps \<Rightarrow> string \<Rightarrow> store \<Rightarrow> unit result" where
  "delete d profileId s =
     (case retrieve d profileId s of
        (Inl e, s') \<Rightarrow> (Inr (), s')
      | (Inr p, s') \<Rightarrow>
          (case deleteOne (profile_id p) s' of
             (Inl msg, s'') \<Rightarrow> (Inl (MedusaError DB_ERROR msg), s'')
           | (Inr r, s'') \<Rightarrow> (Inr r, s'')))"

text \<open>
  The test \<open>if (xs.find(p => p === x))\<close>: \<open>find\<close> returns the element found, so the
  test passes when an element equal to \<open>x\<close> exists and is truthy (a non-empty string).
\<close>

definition found :: "id \<Rightarrow> id list \<Rightarrow> bool" where
  "found x xs = (case find (\<lambda>p. p = x) xs of None \<Rightarrow> False | Some p \<Rightarrow> p \<noteq> [])"

definition addProduct :: "deps \<Rightarrow> string \<Rightarrow> id \<Rightarrow> store \<Rightarrow> unit result" where
  "addProduct d profileId productId s =
     (case retrieve d profileId s of
        (Inl e, s') \<Rightarrow> (Inl e, s')
      | (Inr p, s') \<Rightarrow>
          (case productService_retrieve d productId of
             Inl e \<Rightarrow> (Inl e, s')
           | Inr pr \<Rightarrow>
               if found (product_id pr) (products p) then (Inr (), s')
               else
                 (case updateOne (profileModel_set d) (profile_id p) (PushProducts (product_id pr)) s' of
                    (Inl msg, s'') \<Rightarrow> (Inl (Rejected msg), s'')
                  | (Inr r, s'') \<Rightarrow> (Inr r, s''))))"

definition removeShippingOption :: "deps \<Rightarrow> string \<Rightarrow> id \<Rightarrow> store \<Rightarrow> unit result" where
  "removeShippingOption d profileId optionId s =
     (case retrieve d profileId s of
        (Inl e, s') \<Rightarrow> (Inl e, s')
      | (Inr p, s') \<Rightarrow>
          (case updateOne (profileModel_set d) profileId (PullShippingOptions optionId) s' of
             (Inl msg, s'') \<Rightarrow> (Inl (Rejected msg), s'')
           | (Inr r, s'') \<Rightarrow> (Inr r, s'')))"

text \<open>The last step of \<open>addShippingOption\<close>: the push, addressed by the raw \<open>profileId\<close>.\<close>

definition push_option :: "deps \<Rightarrow> string \<Rightarrow> id \<Rightarrow> store \<Rightarrow> unit result" where
  "push_option d profileId oid s =
     (case updateOne (profileModel_set d) profileId (PushShippingOptions oid) s of
        (Inl msg, s') \<Rightarrow> (Inl (Rejected msg), s')
      | (Inr r, s') \<Rightarrow> (Inr r, s'))"

definition addShippingOption :: "deps \<Rightarrow> string \<Rightarrow> id \<Rightarrow> store \<Rightarrow> unit result" where
  "addShippingOption d profileId optionId s =
     (case retrieve d profileId s of
        (Inl e, s1) \<Rightarrow> (Inl e, s1)
      | (Inr p, s1) \<Rightarrow>
          (case shippingOptionService_retrieve d optionId of
             Inl e \<Rightarrow> (Inl e, s1)
           | Inr so \<Rightarrow>
               if found (option_id so) (shipping_options p) then (Inr (), s1)
               else
                 (case list (ByShippingOption (option_id so)) s1 of
                    (Inl e, s2) \<Rightarrow> (Inl e, s2)
                  | (Inr [], s2) \<Rightarrow> push_option d profileId (option_id so) s2
                  | (Inr (p0 # ps), s2) \<Rightarrow>
                      (case removeShippingOption d (profile_id p0) (option_id so) s2 of
                         (Inl e, s3) \<Rightarrow> (Inl e, s3)
                       | (Inr r, s3) \<Rightarrow> push_option d profileId (option_id so) s3))))"

definition removeProduct :: "deps \<Rightarrow> string \<Rightarrow> id \<Rightarrow> store \<Rightarrow> unit result" where
  "removeProduct d profileId productId s =
     (case retrieve d profileId s of
        (Inl e, s') \<Rightarrow> (Inl e, s')
      | (Inr p, s') \<Rightarrow>
          if \<not> found productId (products p) then (Inr (), s')
          else
            (case updateOne (profileModel_set d) (profile_id p) (PullProducts productId) s' of
               (Inl msg, s'') \<Rightarrow> (Inl (Rejected msg), s'')
             | (Inr r, s'') \<Rightarrow> (Inr r, s'')))"

subsection \<open>The products of a cart\<close>

text \<open>\<open>if (!acc.includes(x)) acc.push(x)\<close>\<close>

definition push_new :: "id list \<Rightarrow> id \<Rightarrow> id list" where
  "push_new acc x = (if x \<in> set acc then acc else acc @ [x])"

text \<open>The callback of the \<open>reduce\<close> over the items, and the \<open>reduce\<close> from \<open>[]\<close>.\<close>

definition add_item :: "id list \<Rightarrow> line_item \<Rightarrow> id list" where
  "add_item acc next =
     (case content next of
        Bundle subs \<Rightarrow> foldl (\<lambda>a sub. push_new a (product_id sub)) acc subs
      | Single pr \<Rightarrow> push_new acc (product_id pr))"

definition getProductsInCart :: "cart \<Rightarrow> id list" where
  "getProductsInCart c = foldl add_item [] (items c)"

subsection \<open>The options of a cart\<close>

text \<open>
  \<open>profiles.reduce((acc, next) => acc.concat(next.shipping_options))\<close> is called with
  no initial value. JavaScript then throws on an empty array and otherwise starts the
  accumulator with the first element, here a profile document and not an array; the
  callback runs from the second element on. The accumulator is thus a profile or an
  array of identifiers, and a profile has no \<open>concat\<close> and no \<open>map\<close>.
\<close>

datatype reduced = Profile profile | Ids "id list"

definition concat_options :: "reduced \<Rightarrow> profile \<Rightarrow> error + reduced" where
  "concat_options acc next =
     (case acc of
        Ids xs \<Rightarrow> Inr (Ids (xs @ shipping_options next))
      | Profile p \<Rightarrow> Inl (TypeError ''acc.concat is not a function''))"

fun reduce_from :: "reduced \<Rightarrow> profile list \<Rightarrow> error + reduced" where
  "reduce_from acc [] = Inr acc"
| "reduce_from acc (p # ps) =
     (case concat_options acc p of Inl e \<Rightarrow> Inl e | Inr acc' \<Rightarrow> reduce_from acc' ps)"

definition reduce_options :: "profile list \<Rightarrow> error + reduced" where
  "reduce_options ps =
     (case ps of
        [] \<Rightarrow> Inl (TypeError ''Reduce of empty array with no initial value'')
      | p # rest \<Rightarrow> reduce_from (Profile p) rest)"

text \<open>
  The validation of the candidates: a rejected \<open>validateCartOption\<close> becomes \<open>null\<close>,
  and the \<open>filter\<close> keeps the records.
\<close>

definition validate_options :: "deps \<Rightarrow> cart \<Rightarrow> id list \<Rightarrow> shipping_option list" where
  "validate_options d c oids =
     List.map_filter
       (\<lambda>oId. case shippingOptionService_validateCartOption d oId c of
                 Inl err \<Rightarrow> None
               | Inr opt \<Rightarrow> Some opt)
       oids"

definition fetchCartOptions :: "deps \<Rightarrow> cart \<Rightarrow> store \<Rightarrow> (shipping_option list) result" where
  "fetchCartOptions d c s =
     (case list (ByProductsIn (getProductsInCart c)) s of
        (Inl e, s') \<Rightarrow> (Inl e, s')
      | (Inr profiles, s') \<Rightarrow>
          (case reduce_options profiles of
             Inl e \<Rightarrow> (Inl e, s')
           | Inr (Profile p) \<Rightarrow> (Inl (TypeError ''optionIds.map is not a function''), s')
           | Inr (Ids optionIds) \<Rightarrow> (Inr (validate_options d c optionIds), s')))"

subsection \<open>Metadata\<close>

definition setMetadata :: "deps \<Rightarrow> string \<Rightarrow> jsval \<Rightarrow> jsval \<Rightarrow> store \<Rightarrow> unit result" where
  "setMetadata d profileId key val s =
     (case validateId d profileId of
        Inl e \<Rightarrow> (Inl e, s)
      | Inr validatedId \<Rightarrow>
          (case key of
             JStr k \<Rightarrow>
               (case updateOne (profileModel_set d) validatedId (Set [(''metadata.'' @ k, val)]) s of
                  (Inl msg, s') \<Rightarrow> (Inl (MedusaError DB_ERROR msg), s')
                | (Inr r, s') \<Rightarrow> (Inr r, s'))
           | _ \<Rightarrow>
               (Inl (MedusaError INVALID_ARGUMENT ''Key type is invalid. Metadata keys must be strings''), s)))"

section \<open>Definitions used in the statements and proofs\<close>

text \<open>
  The product identifiers a cart refers to, as the spec words it: an item holds one
  product reference or an array of sub-items, each with its own product reference.
\<close>

definition item_ids :: "line_item \<Rightarrow> id list" where
  "item_ids it =
     (case content it of Single pr \<Rightarrow> [product_id pr] | Bundle subs \<Rightarrow> map product_id subs)"

definition referenced_ids :: "cart \<Rightarrow> id list" where
  "referenced_ids c = concat (map item_ids (items c))"

text \<open>
  The identifiers of the profiles whose option list contains an option, in stored order:
  the exclusivity invariant says this list has at most one element.
\<close>

definition holders :: "id \<Rightarrow> profile list \<Rightarrow> id list" where
  "holders oid ds = map profile_id (filter (\<lambda>p. oid \<in> set (shipping_options p)) ds)"

text \<open>What \<open>$push\<close> and \<open>$pull\<close> on \<open>shipping_options\<close> do to a document.\<close>

definition push_so :: "id \<Rightarrow> profile \<Rightarrow> profile" where
  "push_so x q = q\<lparr>shipping_options := shipping_options q @ [x]\<rparr>"

definition pull_so :: "id \<Rightarrow> profile \<Rightarrow> profile" where
  "pull_so x q = q\<lparr>shipping_options := removeAll x (shipping_options q)\<rparr>"

text \<open>
  The documents after \<open>addProduct\<close> and after \<open>removeProduct\<close> when no storage call
  faults, read off the two functions: the lookup, the membership test, the patch.
\<close>

definition after_addProduct :: "deps \<Rightarrow> string \<Rightarrow> id \<Rightarrow> profile list \<Rightarrow> profile list" where
  "after_addProduct d i x ds =
     (case objectId d i of
        None \<Rightarrow> ds
      | Some v \<Rightarrow>
          (case find (\<lambda>p. profile_id p = v) ds of
             None \<Rightarrow> ds
           | Some p \<Rightarrow>
               (case productService_retrieve d x of
                  Inl e \<Rightarrow> ds
                | Inr pr \<Rightarrow>
                    if found (product_id pr) (products p) then ds
                    else update_first v (\<lambda>q. q\<lparr>products := products q @ [product_id pr]\<rparr>) ds)))"

definition after_removeProduct :: "deps \<Rightarrow> string \<Rightarrow> id \<Rightarrow> profile list \<Rightarrow> profile list" where
  "after_removeProduct d i x ds =
     (case objectId d i of
        None \<Rightarrow> ds
      | Some v \<Rightarrow>
          (case find (\<lambda>p. profile_id p = v) ds of
             None \<Rightarrow> ds
           | Some p \<Rightarrow>
               if found x (products p)
               then update_first v (\<lambda>q. q\<lparr>products := removeAll x (products q)\<rparr>) ds
               else ds))"

subsection \<open>A concrete service and store\<close>

text \<open>
  An identifier validator in the shape of an ObjectId check (24 hexadecimal digits,
  returned unchanged), two products, two shipping options of which only \<open>opt1\<close> is
  valid for a cart, and a store assigning the \<open>name\<close> field of a \<open>$set\<close>.
\<close>

definition hex24 :: "string \<Rightarrow> string option" where
  "hex24 x =
     (if length x = 24 \<and> list_all (\<lambda>c. c \<in> set ''0123456789abcdefABCDEF'') x
      then Some x else None)"

definition svc :: deps where
  "svc =
     \<lparr>objectId = hex24,
      profileModel_set =
        (\<lambda>kvs p. case map_of kvs ''name'' of Some (JStr n) \<Rightarrow> p\<lparr>name := n\<rparr> | _ \<Rightarrow> p),
      productService_retrieve =
        (\<lambda>i. if i \<in> set [''prod1'', ''prod2'']
             then Inr \<lparr>product_id = i, title = ''a product''\<rparr>
             else Inl (MedusaError NOT_FOUND ''Product was not found'')),
      shippingOptionService_retrieve =
        (\<lambda>i. if i \<in> set [''opt1'', ''opt2'']
             then Inr \<lparr>option_id = i, option_name = ''Free Shipping'', region_id = ''region''\<rparr>
             else Inl (MedusaError NOT_FOUND ''Shipping Option was not found'')),
      shippingOptionService_validateCartOption =
        (\<lambda>i c. if i = ''opt1''
               then Inr \<lparr>option_id = i, option_name = ''Free Shipping'', region_id = ''region''\<rparr>
               else Inl (MedusaError INVALID_DATA ''The shipping option is not available''))\<rparr>"

definition idA :: id where
  "idA = ''aaaaaaaaaaaaaaaaaaaaaaaa''"

definition idB :: id where
  "idB = ''bbbbbbbbbbbbbbbbbbbbbbbb''"

definition profileA :: profile where
  "profileA =
     \<lparr>profile_id = idA, name = ''default1'', products = [''prod1''],
      shipping_options = [''opt1''], metadata = []\<rparr>"

definition profileB :: profile where
  "profileB =
     \<lparr>profile_id = idB, name = ''default2'', products = [''prod2''],
      shipping_options = [''opt2''], metadata = []\<rparr>"

definition store0 :: store where
  "store0 = \<lparr>docs = [profileA, profileB], faults = [], log = []\<rparr>"

definition cart_of :: "id list \<Rightarrow> cart" where
  "cart_of ps = \<lparr>items = map (\<lambda>i. \<lparr>content = Single \<lparr>product_id = i, title = ''a product''\<rparr>\<rparr>) ps\<rparr>"

text \<open>The store after \<open>addShippingOption(idA, opt2)\<close> on \<open>store0\<close>.\<close>

definition storeA2 :: store where
  "storeA2 =
     \<lparr>docs = [profileA\<lparr>shipping_options := [''opt1'', ''opt2'']\<rparr>, profileB\<lparr>shipping_options := []\<rparr>],
      faults = [],
      log = [FindOne idA, Find (ByShippingOption ''opt2''), FindOne idB,
             UpdateOne idB (PullShippingOptions ''opt2''), UpdateOne idA (PushShippingOptions ''opt2'')]\<rparr>"

section \<open>The products of a cart\<close>

lemma push_new_props:
  "set (push_new acc x) = insert x (set acc)"
  "distinct acc \<Longrightarrow> distinct (push_new acc x)"
  by (auto simp: push_new_def)

lemma foldl_push_new:
  "set (foldl push_new acc xs) = set acc \<union> set xs \<and>
   (distinct acc \<longrightarrow> distinct (foldl push_new acc xs))"
  by (induction xs arbitrary: acc) (auto simp: push_new_props)

lemma foldl_push_new_map:
  "foldl (\<lambda>a sub. push_new a (product_id sub)) acc subs = foldl push_new acc (map product_id subs)"
  by (induction subs arbitrary: acc) auto

lemma add_item_eq: "add_item acc it = foldl push_new acc (item_ids it)"
  by (simp add: add_item_def item_ids_def foldl_push_new_map split: content.splits)

lemma foldl_add_item: "foldl add_item acc its = foldl push_new acc (concat (map item_ids its))"
  by (induction its arbitrary: acc) (auto simp: add_item_eq)

lemma getProductsInCart_eq: "getProductsInCart c = foldl push_new [] (referenced_ids c)"
  by (simp add: getProductsInCart_def referenced_ids_def foldl_add_item)

lemma remdups_snoc: "remdups (ys @ [x]) = remdups (filter (\<lambda>y. y \<noteq> x) ys) @ [x]"
  by (induction ys) auto

text \<open>The fold keeps the first occurrence of every identifier, in order.\<close>

lemma foldl_push_new_order:
  "foldl push_new acc xs = acc @ rev (remdups (rev (filter (\<lambda>x. x \<notin> set acc) xs)))"
proof (induction xs arbitrary: acc)
  case Nil
  then show ?case by simp
next
  case (Cons x xs)
  show ?case
  proof (cases "x \<in> set acc")
    case True
    then have "foldl push_new acc (x # xs) = foldl push_new acc xs"
      by (simp add: push_new_def)
    then show ?thesis using True Cons[of acc] by simp
  next
    case False
    have f: "filter (\<lambda>y. y \<notin> set (acc @ [x])) xs =
             filter (\<lambda>y. y \<noteq> x) (filter (\<lambda>y. y \<notin> set acc) xs)"
      unfolding filter_filter by (rule filter_cong) auto
    have "foldl push_new acc (x # xs) = foldl push_new (acc @ [x]) xs"
      using False by (simp add: push_new_def)
    also have "\<dots> = (acc @ [x]) @
        rev (remdups (rev (filter (\<lambda>y. y \<noteq> x) (filter (\<lambda>y. y \<notin> set acc) xs))))"
      using Cons[of "acc @ [x]"] unfolding f .
    also have "\<dots> = acc @ rev (remdups (rev (filter (\<lambda>y. y \<notin> set acc) xs) @ [x]))"
      by (simp add: remdups_snoc rev_filter del: filter_filter)
    also have "\<dots> = acc @ rev (remdups (rev (filter (\<lambda>y. y \<notin> set acc) (x # xs))))"
      using False by simp
    finally show ?thesis .
  qed
qed

text \<open>
  C9: for every cart, the product identifiers computed from its line items contain each
  referenced product identifier exactly once, whether the item holds a single product
  or an array of sub-items: the result has no duplicates, has exactly the referenced
  identifiers as elements, and lists them in the order of their first occurrence.
\<close>

theorem getProductsInCart_distinct:
  "distinct (getProductsInCart c) \<and>
   set (getProductsInCart c) = set (referenced_ids c) \<and>
   getProductsInCart c = rev (remdups (rev (referenced_ids c)))"
proof -
  have 1: "distinct (getProductsInCart c)" "set (getProductsInCart c) = set (referenced_ids c)"
    using foldl_push_new[of "[]" "referenced_ids c"] by (simp_all add: getProductsInCart_eq)
  have 2: "getProductsInCart c = rev (remdups (rev (referenced_ids c)))"
    unfolding getProductsInCart_eq by (subst foldl_push_new_order) simp
  show ?thesis using 1 2 by blast
qed

section \<open>Malformed identifiers\<close>

lemma hex24_idA: "hex24 idA = Some idA"
  by (simp add: hex24_def idA_def)

lemma hex24_idB: "hex24 idB = Some idB"
  by (simp add: hex24_def idB_def)

lemma hex24_bad: "hex24 ''not-an-id'' = None"
  by (simp add: hex24_def)

text \<open>
  C7: when the validator rejects the identifier, \<open>retrieve\<close>, \<open>update\<close> and
  \<open>setMetadata\<close> each fail with \<open>INVALID_ARGUMENT\<close>, whatever the other arguments, and
  return the store as it was: no document, no entry of the fault script and no entry
  of the call log has changed, so no storage call was made.
\<close>

theorem malformed_id_invalid_argument:
  assumes "objectId d rawId = None"
  shows "retrieve d rawId s =
           (Inl (MedusaError INVALID_ARGUMENT ''The profileId could not be casted to an ObjectId''), s) \<and>
         update d rawId upd s =
           (Inl (MedusaError INVALID_ARGUMENT ''The profileId could not be casted to an ObjectId''), s) \<and>
         setMetadata d rawId key val s =
           (Inl (MedusaError INVALID_ARGUMENT ''The profileId could not be casted to an ObjectId''), s)"
  using assms by (simp add: retrieve_def update_def setMetadata_def validateId_def)

theorem malformed_id_invalid_argument_witness:
  "objectId svc ''not-an-id'' = None \<and>
   retrieve svc ''not-an-id'' (store0\<lparr>faults := [Some ''connection lost'']\<rparr>) =
     (Inl (MedusaError INVALID_ARGUMENT ''The profileId could not be casted to an ObjectId''),
      store0\<lparr>faults := [Some ''connection lost'']\<rparr>) \<and>
   update svc ''not-an-id'' [(''name'', JStr ''n'')] (store0\<lparr>faults := [Some ''connection lost'']\<rparr>) =
     (Inl (MedusaError INVALID_ARGUMENT ''The profileId could not be casted to an ObjectId''),
      store0\<lparr>faults := [Some ''connection lost'']\<rparr>) \<and>
   setMetadata svc ''not-an-id'' (JStr ''k'') (JNum 1) (store0\<lparr>faults := [Some ''connection lost'']\<rparr>) =
     (Inl (MedusaError INVALID_ARGUMENT ''The profileId could not be casted to an ObjectId''),
      store0\<lparr>faults := [Some ''connection lost'']\<rparr>)"
proof -
  have h: "objectId svc ''not-an-id'' = None"
    by (simp add: svc_def hex24_bad)
  show ?thesis
    using h malformed_id_invalid_argument [OF h] by simp
qed

section \<open>The options of a cart\<close>

text \<open>
  With no initial value the \<open>reduce\<close> yields an array for no list of profiles: it throws
  on none, returns the profile itself on one, and calls \<open>concat\<close> on a profile on more.
\<close>

lemma reduce_from_Profile:
  "reduce_from (Profile p) ps =
     (if ps = [] then Inr (Profile p) else Inl (TypeError ''acc.concat is not a function''))"
  by (cases ps) (simp_all add: concat_options_def)

lemma reduce_options_cases:
  "reduce_options ps =
     (case ps of
        [] \<Rightarrow> Inl (TypeError ''Reduce of empty array with no initial value'')
      | [p] \<Rightarrow> Inr (Profile p)
      | p # q # rest \<Rightarrow> Inl (TypeError ''acc.concat is not a function''))"
  by (simp add: reduce_options_def reduce_from_Profile split: list.splits)

text \<open>So \<open>fetchCartOptions\<close> returns no option list, whatever the cart and the store.\<close>

lemma fetchCartOptions_always_fails: "\<exists>e. fst (fetchCartOptions d c s) = Inl e"
  by (simp add: fetchCartOptions_def reduce_options_cases split: prod.splits sum.splits list.splits)

lemma getProductsInCart_cart_of:
  "getProductsInCart (cart_of ps) = foldl push_new [] ps"
  by (simp add: getProductsInCart_eq referenced_ids_def cart_of_def item_ids_def comp_def)

lemma list_no_fault:
  "faults s = [] \<Longrightarrow> list sel s = (Inr (filter (matches sel) (docs s)), s\<lparr>log := log s @ [Find sel]\<rparr>)"
  by (simp add: list_def find_docs_def access_def)

text \<open>
  C1 (the code departs from the claim): a cart whose only product \<open>prod3\<close> is covered by
  no stored profile. The store answers with the empty list, and the \<open>reduce\<close> over it
  throws a \<open>TypeError\<close>: the call fails instead of returning the empty sequence.
\<close>

theorem fetchCartOptions_no_match_fails:
  "fetchCartOptions svc (cart_of [''prod3'']) store0 =
     (Inl (TypeError ''Reduce of empty array with no initial value''),
      store0\<lparr>log := [Find (ByProductsIn [''prod3''])]\<rparr>)"
  by (simp add: fetchCartOptions_def getProductsInCart_cart_of push_new_def list_no_fault
      store0_def profileA_def profileB_def reduce_options_def)

text \<open>
  C2 (the code departs from the claim): a cart matching the two profiles, each holding
  one option, and a cart matching one of them. In both cases the call fails with a
  \<open>TypeError\<close> before any option is validated, whatever the validation would answer,
  instead of returning the options of the matched profiles.
\<close>

theorem fetchCartOptions_two_profiles_fails:
  "fetchCartOptions svc (cart_of [''prod1'', ''prod2'']) store0 =
     (Inl (TypeError ''acc.concat is not a function''),
      store0\<lparr>log := [Find (ByProductsIn [''prod1'', ''prod2''])]\<rparr>) \<and>
   fetchCartOptions svc (cart_of [''prod1'']) store0 =
     (Inl (TypeError ''optionIds.map is not a function''),
      store0\<lparr>log := [Find (ByProductsIn [''prod1''])]\<rparr>)"
  by (simp add: fetchCartOptions_def getProductsInCart_cart_of push_new_def list_no_fault
      store0_def profileA_def profileB_def reduce_options_def concat_options_def)

text \<open>
  C6 (the code departs from the claim): one matched profile with the two candidates
  \<open>opt2\<close>, which fails validation, and \<open>opt1\<close>, which passes. The call fails with a
  \<open>TypeError\<close> instead of returning exactly the record of \<open>opt1\<close>.
\<close>

theorem fetchCartOptions_partial_validation_fails:
  "shippingOptionService_validateCartOption svc ''opt1'' (cart_of [''prod1'']) =
     Inr \<lparr>option_id = ''opt1'', option_name = ''Free Shipping'', region_id = ''region''\<rparr> \<and>
   shippingOptionService_validateCartOption svc ''opt2'' (cart_of [''prod1'']) =
     Inl (MedusaError INVALID_DATA ''The shipping option is not available'') \<and>
   fetchCartOptions svc (cart_of [''prod1''])
     (store0\<lparr>docs := [profileA\<lparr>shipping_options := [''opt2'', ''opt1'']\<rparr>]\<rparr>) =
     (Inl (TypeError ''optionIds.map is not a function''),
      store0\<lparr>docs := [profileA\<lparr>shipping_options := [''opt2'', ''opt1'']\<rparr>],
             log := [Find (ByProductsIn [''prod1''])]\<rparr>)"
  by (simp add: fetchCartOptions_def getProductsInCart_cart_of push_new_def list_no_fault
      store0_def profileA_def profileB_def reduce_options_def concat_options_def svc_def)

text \<open>
  The validation stage by itself does drop exactly the candidates whose validation
  fails, keeping the order; it is the \<open>reduce\<close> before it that never hands it a list.
\<close>

lemma validate_options_step:
  "validate_options d c [] = []"
  "validate_options d c (oId # oids) =
     (case shippingOptionService_validateCartOption d oId c of
        Inl err \<Rightarrow> validate_options d c oids
      | Inr opt \<Rightarrow> opt # validate_options d c oids)"
  by (simp_all add: validate_options_def List.map_filter_def split: sum.splits)

section \<open>The guards of update\<close>

lemma apply_patch_Set: "apply_patch setf (Set kvs) = setf kvs"
  by (rule ext) simp




text \<open>
  C10: the guards of \<open>update\<close> test truthiness only. For an identifier the validator
  accepts and an update whose \<open>metadata\<close>, \<open>products\<close> and \<open>shipping_options\<close> values
  are all falsy (or absent), the call is never rejected with \<open>INVALID_DATA\<close>, and the
  update object, falsy values included, is handed to the store's \<open>updateOne\<close> under
  \<open>$set\<close>; when the store does not fault the call succeeds and the patch is applied.
\<close>

theorem update_falsy_passes:
  assumes "objectId d i = Some v"
    and "\<not> truthy (js_get upd ''metadata'')"
    and "\<not> truthy (js_get upd ''products'')"
    and "\<not> truthy (js_get upd ''shipping_options'')"
  shows "(\<forall>msg. fst (update d i upd s) \<noteq> Inl (MedusaError INVALID_DATA msg)) \<and>
         log (snd (update d i upd s)) = log s @ [UpdateOne v (Set upd)] \<and>
         (faults s = [] \<longrightarrow>
            update d i upd s =
              (Inr (), s\<lparr>log := log s @ [UpdateOne v (Set upd)],
                          docs := update_first v (profileModel_set d upd) (docs s)\<rparr>))"
  using assms
  by (auto simp: update_def validateId_def updateOne_def access_def apply_patch_Set
      split: list.splits option.splits)

theorem update_falsy_passes_witness:
  "update svc idA [(''metadata'', JNull)] store0 =
     (Inr (), store0\<lparr>log := [UpdateOne idA (Set [(''metadata'', JNull)])]\<rparr>) \<and>
   update svc idA [(''products'', JNum 0)] store0 =
     (Inr (), store0\<lparr>log := [UpdateOne idA (Set [(''products'', JNum 0)])]\<rparr>) \<and>
   update svc idA [(''shipping_options'', JStr [])] store0 =
     (Inr (), store0\<lparr>log := [UpdateOne idA (Set [(''shipping_options'', JStr [])])]\<rparr>)"
proof -
  have v: "objectId svc idA = Some idA"
    by (simp add: svc_def hex24_idA)
  have f: "faults store0 = []" "log store0 = []"
    by (simp_all add: store0_def)
  have same: "update_first idA (profileModel_set svc upd) (docs store0) = docs store0"
    if "map_of upd ''name'' = None" for upd
    using that by (simp add: store0_def profileA_def svc_def)
  have 1: "update svc idA [(''metadata'', JNull)] store0 =
     (Inr (), store0\<lparr>log := [UpdateOne idA (Set [(''metadata'', JNull)])]\<rparr>)"
    using update_falsy_passes [OF v, of "[(''metadata'', JNull)]" store0] f
      same [of "[(''metadata'', JNull)]"]
    by (simp add: js_get_def)
  have 2: "update svc idA [(''products'', JNum 0)] store0 =
     (Inr (), store0\<lparr>log := [UpdateOne idA (Set [(''products'', JNum 0)])]\<rparr>)"
    using update_falsy_passes [OF v, of "[(''products'', JNum 0)]" store0] f
      same [of "[(''products'', JNum 0)]"]
    by (simp add: js_get_def)
  have 3: "update svc idA [(''shipping_options'', JStr [])] store0 =
     (Inr (), store0\<lparr>log := [UpdateOne idA (Set [(''shipping_options'', JStr [])])]\<rparr>)"
    using update_falsy_passes [OF v, of "[(''shipping_options'', JStr [])]" store0] f
      same [of "[(''shipping_options'', JStr [])]"]
    by (simp add: js_get_def)
  show ?thesis using 1 2 3 by blast
qed

section \<open>Deleting a profile\<close>

lemma find_profile_id: "find (\<lambda>p. profile_id p = v) ds = Some p \<Longrightarrow> profile_id p = v"
  by (induction ds) (auto split: if_splits)

text \<open>
  C4 (the code departs from the claim): \<open>delete(idA)\<close> on a store holding the profile,
  with \<open>findOne\<close> rejecting (message \<open>connection lost\<close>). \<open>retrieve\<close> wraps the fault as a
  \<open>DB_ERROR\<close> and throws it, but the \<open>catch\<close> of \<open>delete\<close> around it has no condition:
  the call resolves as if it had succeeded, the fault is not surfaced, and the profile
  is still stored. A fault of \<open>deleteOne\<close>, in the same function, is surfaced as a
  \<open>DB_ERROR\<close> with the message of its cause.
\<close>

theorem delete_swallows_lookup_fault:
  "retrieve svc idA (store0\<lparr>faults := [Some ''connection lost'']\<rparr>) =
     (Inl (MedusaError DB_ERROR ''connection lost''), store0\<lparr>log := [FindOne idA]\<rparr>) \<and>
   delete svc idA (store0\<lparr>faults := [Some ''connection lost'']\<rparr>) =
     (Inr (), store0\<lparr>log := [FindOne idA]\<rparr>) \<and>
   docs (snd (delete svc idA (store0\<lparr>faults := [Some ''connection lost'']\<rparr>))) =
     [profileA, profileB] \<and>
   fst (delete svc idA (store0\<lparr>faults := [None, Some ''disk full'']\<rparr>)) =
     Inl (MedusaError DB_ERROR ''disk full'')"
  by (simp add: delete_def retrieve_def validateId_def findOne_def deleteOne_def access_def
      svc_def hex24_idA store0_def profileA_def)

section \<open>Facts about the store and the lookup\<close>

lemma found_iff: "found x xs \<longleftrightarrow> x \<in> set xs \<and> x \<noteq> []"
proof -
  have "find (\<lambda>p. p = x) xs = (if x \<in> set xs then Some x else None)"
    by (induction xs) auto
  then show ?thesis by (simp add: found_def)
qed

lemma access_docs: "docs (snd (access c s)) = docs s"
  by (simp add: access_def split: list.splits)

lemma access_eq_docs: "access c s = (r, s') \<Longrightarrow> docs s' = docs s"
  using access_docs [of c s] by simp

lemma access_no_fault: "faults s = [] \<Longrightarrow> access c s = (None, s\<lparr>log := log s @ [c]\<rparr>)"
  by (simp add: access_def)

lemma retrieve_no_fault:
  "faults s = [] \<Longrightarrow>
   retrieve d i s =
     (case objectId d i of
        None \<Rightarrow> (Inl (MedusaError INVALID_ARGUMENT ''The profileId could not be casted to an ObjectId''), s)
      | Some v \<Rightarrow>
          (case find (\<lambda>p. profile_id p = v) (docs s) of
             None \<Rightarrow> (Inl (MedusaError NOT_FOUND (''Shipping Profile with '' @ i @ '' was not found'')),
                       s\<lparr>log := log s @ [FindOne v]\<rparr>)
           | Some p \<Rightarrow> (Inr p, s\<lparr>log := log s @ [FindOne v]\<rparr>)))"
  by (simp add: retrieve_def validateId_def findOne_def access_no_fault split: option.splits)

lemma retrieve_Inr:
  assumes "retrieve d i s = (Inr p, s')"
  shows "docs s' = docs s \<and> (\<exists>v. objectId d i = Some v \<and> find (\<lambda>q. profile_id q = v) (docs s) = Some p \<and> profile_id p = v)"
proof -
  from assms obtain v where v: "objectId d i = Some v"
    by (auto simp: retrieve_def validateId_def split: option.splits)
  obtain r s1 where a: "access (FindOne v) s = (r, s1)"
    by (cases "access (FindOne v) s")
  then have d: "docs s1 = docs s"
    using access_docs [of "FindOne v" s] by simp
  from assms v a have "r = None \<and> s' = s1 \<and> find (\<lambda>q. profile_id q = v) (docs s1) = Some p"
    by (auto simp: retrieve_def validateId_def findOne_def split: option.splits)
  with d v show ?thesis
    using find_profile_id [of v "docs s" p] by auto
qed

lemma retrieve_Inl_docs: "retrieve d i s = (Inl e, s') \<Longrightarrow> docs s' = docs s"
  by (auto simp: retrieve_def validateId_def findOne_def dest: access_eq_docs
      split: option.splits prod.splits sum.splits)

lemma updateOne_no_fault:
  "faults s = [] \<Longrightarrow>
   updateOne setf i pt s =
     (Inr (), s\<lparr>log := log s @ [UpdateOne i pt], docs := update_first i (apply_patch setf pt) (docs s)\<rparr>)"
  by (simp add: updateOne_def access_no_fault)

lemma updateOne_cases:
  "(\<exists>msg s'. updateOne setf i pt s = (Inl msg, s') \<and> docs s' = docs s) \<or>
   (\<exists>s'. updateOne setf i pt s = (Inr (), s') \<and> docs s' = update_first i (apply_patch setf pt) (docs s))"
  by (auto simp: updateOne_def access_def split: list.splits option.splits)

lemma find_update_first:
  assumes "\<And>p. profile_id (f p) = profile_id p"
  shows "find (\<lambda>p. profile_id p = v) (update_first v f ds) = map_option f (find (\<lambda>p. profile_id p = v) ds)"
  using assms by (induction ds) auto

lemma update_first_subset:
  "find (\<lambda>p. profile_id p = v) ds = Some p \<Longrightarrow> set (update_first v f ds) \<subseteq> insert (f p) (set ds)"
  by (induction ds) (auto split: if_splits)

lemma find_in_set: "find P ds = Some p \<Longrightarrow> p \<in> set ds"
  by (induction ds) (auto split: if_splits)


lemma apply_patch_push_products:
  "apply_patch setf (PushProducts x) = (\<lambda>q. q\<lparr>products := products q @ [x]\<rparr>)"
  by (rule ext) simp

lemma apply_patch_pull_products:
  "apply_patch setf (PullProducts x) = (\<lambda>q. q\<lparr>products := removeAll x (products q)\<rparr>)"
  by (rule ext) simp

lemma addProduct_no_fault:
  assumes "faults s = []"
  shows "faults (snd (addProduct d i x s)) = []"
    and "docs (snd (addProduct d i x s)) = after_addProduct d i x (docs s)"
  using assms
  by (auto simp: addProduct_def after_addProduct_def retrieve_no_fault updateOne_no_fault
      apply_patch_push_products dest: find_profile_id split: option.splits sum.splits)

lemma after_addProduct_idem:
  assumes "\<And>pr. productService_retrieve d x = Inr pr \<Longrightarrow> product_id pr \<noteq> []"
  shows "after_addProduct d i x (after_addProduct d i x ds) = after_addProduct d i x ds"
proof (cases "objectId d i")
  case None
  then show ?thesis by (simp add: after_addProduct_def)
next
  case (Some v)
  show ?thesis
  proof (cases "find (\<lambda>p. profile_id p = v) ds")
    case None
    with Some show ?thesis by (simp add: after_addProduct_def)
  next
    case fp: (Some p)
    show ?thesis
    proof (cases "productService_retrieve d x")
      case (Inl e)
      with Some fp show ?thesis by (simp add: after_addProduct_def)
    next
      case (Inr pr)
      then have ne: "product_id pr \<noteq> []" using assms by simp
      show ?thesis
      proof (cases "found (product_id pr) (products p)")
        case True
        with Some fp Inr show ?thesis by (simp add: after_addProduct_def)
      next
        case False
        let ?f = "\<lambda>q. q\<lparr>products := products q @ [product_id pr]\<rparr>"
        have 1: "after_addProduct d i x ds = update_first v ?f ds"
          using Some fp Inr False by (simp add: after_addProduct_def)
        have 2: "find (\<lambda>p. profile_id p = v) (update_first v ?f ds) = Some (?f p)"
          using fp by (simp add: find_update_first)
        have 3: "found (product_id pr) (products (?f p))"
          using ne by (simp add: found_iff)
        have "after_addProduct d i x (update_first v ?f ds) = update_first v ?f ds"
          using Some Inr 2 3 by (simp add: after_addProduct_def)
        with 1 show ?thesis by simp
      qed
    qed
  qed
qed

lemma removeProduct_no_fault:
  assumes "faults s = []"
  shows "faults (snd (removeProduct d i x s)) = []"
    and "docs (snd (removeProduct d i x s)) = after_removeProduct d i x (docs s)"
  using assms
  by (auto simp: removeProduct_def after_removeProduct_def retrieve_no_fault updateOne_no_fault
      apply_patch_pull_products dest: find_profile_id split: option.splits sum.splits)

lemma after_removeProduct_idem:
  "after_removeProduct d i x (after_removeProduct d i x ds) = after_removeProduct d i x ds"
proof (cases "objectId d i")
  case None
  then show ?thesis by (simp add: after_removeProduct_def)
next
  case (Some v)
  show ?thesis
  proof (cases "find (\<lambda>p. profile_id p = v) ds")
    case None
    with Some show ?thesis by (simp add: after_removeProduct_def)
  next
    case fp: (Some p)
    show ?thesis
    proof (cases "found x (products p)")
      case False
      with Some fp show ?thesis by (simp add: after_removeProduct_def)
    next
      case True
      let ?f = "\<lambda>q. q\<lparr>products := removeAll x (products q)\<rparr>"
      have 1: "after_removeProduct d i x ds = update_first v ?f ds"
        using Some fp True by (simp add: after_removeProduct_def)
      have 2: "find (\<lambda>p. profile_id p = v) (update_first v ?f ds) = Some (?f p)"
        using fp by (simp add: find_update_first)
      have 3: "\<not> found x (products (?f p))"
        by (simp add: found_iff)
      have "after_removeProduct d i x (update_first v ?f ds) = update_first v ?f ds"
        using Some 2 3 by (simp add: after_removeProduct_def)
      with 1 show ?thesis by simp
    qed
  qed
qed

lemma addProduct_docs_cases:
  "docs (snd (addProduct d i x s)) = docs s \<or>
   (\<exists>p pr. find (\<lambda>q. profile_id q = profile_id p) (docs s) = Some p \<and>
      productService_retrieve d x = Inr pr \<and> \<not> found (product_id pr) (products p) \<and>
      docs (snd (addProduct d i x s)) =
        update_first (profile_id p) (\<lambda>q. q\<lparr>products := products q @ [product_id pr]\<rparr>) (docs s))"
proof (cases "retrieve d i s")
  case (Pair r s1)
  show ?thesis
  proof (cases r)
    case (Inl e)
    with Pair show ?thesis
      by (auto simp: addProduct_def dest: retrieve_Inl_docs)
  next
    case (Inr p)
    with Pair have p: "docs s1 = docs s" "find (\<lambda>q. profile_id q = profile_id p) (docs s) = Some p"
      using retrieve_Inr [of d i s p s1] by auto
    show ?thesis
    proof (cases "productService_retrieve d x")
      case (Inl e)
      with Pair Inr p show ?thesis by (simp add: addProduct_def)
    next
      case pr: (Inr pr)
      show ?thesis
      proof (cases "found (product_id pr) (products p)")
        case True
        with Pair Inr p pr show ?thesis by (simp add: addProduct_def)
      next
        case False
        from updateOne_cases [of "profileModel_set d" "profile_id p" "PushProducts (product_id pr)" s1]
        show ?thesis
        proof (elim disjE exE conjE)
          fix msg s'
          assume "updateOne (profileModel_set d) (profile_id p) (PushProducts (product_id pr)) s1 = (Inl msg, s')"
            "docs s' = docs s1"
          with Pair Inr p pr False show ?thesis by (simp add: addProduct_def)
        next
          fix s'
          assume "updateOne (profileModel_set d) (profile_id p) (PushProducts (product_id pr)) s1 = (Inr (), s')"
            "docs s' = update_first (profile_id p) (apply_patch (profileModel_set d) (PushProducts (product_id pr))) (docs s1)"
          with Pair Inr p pr False show ?thesis
            by (auto simp: addProduct_def apply_patch_push_products)
        qed
      qed
    qed
  qed
qed

lemma addProduct_keeps_distinct:
  assumes "\<And>pr. productService_retrieve d x = Inr pr \<Longrightarrow> product_id pr \<noteq> []"
    and "\<forall>p \<in> set (docs s). distinct (products p)"
  shows "\<forall>p \<in> set (docs (snd (addProduct d i x s))). distinct (products p)"
  using addProduct_docs_cases [of d i x s]
proof (elim disjE exE conjE)
  assume "docs (snd (addProduct d i x s)) = docs s"
  with assms(2) show ?thesis by simp
next
  fix p :: profile and pr :: product
  let ?f = "\<lambda>q. q\<lparr>products := products q @ [product_id pr]\<rparr>"
  assume a: "find (\<lambda>q. profile_id q = profile_id p) (docs s) = Some p"
    "productService_retrieve d x = Inr pr" "\<not> found (product_id pr) (products p)"
    "docs (snd (addProduct d i x s)) = update_first (profile_id p) ?f (docs s)"
  have "p \<in> set (docs s)" using a(1) by (rule find_in_set)
  then have dp: "distinct (products p)" using assms(2) by blast
  have "product_id pr \<noteq> []" using assms(1) a(2) by simp
  then have "product_id pr \<notin> set (products p)" using a(3) by (simp add: found_iff)
  with dp have "distinct (products (?f p))" by simp
  moreover have "set (update_first (profile_id p) ?f (docs s)) \<subseteq> insert (?f p) (set (docs s))"
    using a(1) by (rule update_first_subset)
  ultimately show ?thesis using assms(2) a(4) by auto
qed

section \<open>Exclusive shipping options\<close>

lemma apply_patch_so:
  "apply_patch setf (PushShippingOptions x) = push_so x"
  "apply_patch setf (PullShippingOptions x) = pull_so x"
  by (rule ext, simp add: push_so_def pull_so_def)+

lemma ids_update_first:
  "(\<And>p. profile_id (f p) = profile_id p) \<Longrightarrow> map profile_id (update_first i f ds) = map profile_id ds"
  by (induction ds) auto

lemma push_holders:
  "holders oid ds = [] \<Longrightarrow> a \<in> set (map profile_id ds) \<Longrightarrow> holders oid (update_first a (push_so oid) ds) = [a]"
  by (induction ds) (auto simp: holders_def push_so_def split: if_splits)

lemma holders_subset: "set (holders oid ds) \<subseteq> set (map profile_id ds)"
  by (auto simp: holders_def)

lemma pull_holders:
  "distinct (map profile_id ds) \<Longrightarrow> holders oid ds = [i0] \<Longrightarrow> holders oid (update_first i0 (pull_so oid) ds) = []"
proof (induction ds)
  case Nil
  then show ?case by (simp add: holders_def)
next
  case (Cons p ps)
  show ?case
  proof (cases "profile_id p = i0")
    case True
    have "holders oid ps = []"
    proof (cases "oid \<in> set (shipping_options p)")
      case True
      with Cons.prems(2) show ?thesis by (simp add: holders_def)
    next
      case False
      with Cons.prems(2) have "holders oid ps = [i0]" by (simp add: holders_def)
      then have "i0 \<in> set (holders oid ps)" by simp
      then have "i0 \<in> set (map profile_id ps)" using holders_subset by blast
      with True Cons.prems(1) show ?thesis by simp
    qed
    with True show ?thesis by (simp add: holders_def pull_so_def)
  next
    case False
    with Cons.prems(2) have np: "oid \<notin> set (shipping_options p)" and hp: "holders oid ps = [i0]"
      by (auto simp: holders_def split: if_splits)
    from Cons.prems(1) have "distinct (map profile_id ps)" by simp
    then have "holders oid (update_first i0 (pull_so oid) ps) = []" using hp by (rule Cons.IH)
    with False np show ?thesis by (simp add: holders_def)
  qed
qed

lemma others_holders:
  "o' \<noteq> oid \<Longrightarrow> holders o' (update_first i (push_so oid) ds) = holders o' ds"
  "o' \<noteq> oid \<Longrightarrow> holders o' (update_first i (pull_so oid) ds) = holders o' ds"
  by (induction ds) (auto simp: holders_def push_so_def pull_so_def)

lemma list_Inr: "list sel s = (Inr ps, s') \<Longrightarrow> docs s' = docs s \<and> ps = filter (matches sel) (docs s)"
  by (auto simp: list_def find_docs_def split: prod.splits option.splits dest: access_eq_docs)

lemma updateOne_Inr:
  "updateOne setf i pt s = (Inr r, s') \<Longrightarrow> docs s' = update_first i (apply_patch setf pt) (docs s)"
  using updateOne_cases [of setf i pt s] by auto

lemma removeShippingOption_Inr:
  assumes "removeShippingOption d i x s = (Inr r, s')"
  shows "docs s' = update_first i (pull_so x) (docs s)"
proof -
  obtain r1 s1 where r: "retrieve d i s = (r1, s1)" by (cases "retrieve d i s")
  with assms obtain p where p: "r1 = Inr p"
    by (cases r1) (auto simp: removeShippingOption_def)
  with r have d: "docs s1 = docs s" using retrieve_Inr by blast
  from assms r p have "\<exists>r2. updateOne (profileModel_set d) i (PullShippingOptions x) s1 = (Inr r2, s')"
    by (auto simp: removeShippingOption_def split: prod.splits sum.splits)
  then show ?thesis using d updateOne_Inr by (auto simp: apply_patch_so)
qed

lemma push_option_Inr:
  assumes "push_option d i x s = (Inr r, s')"
  shows "docs s' = update_first i (push_so x) (docs s)"
proof -
  from assms have "\<exists>r2. updateOne (profileModel_set d) i (PushShippingOptions x) s = (Inr r2, s')"
    by (auto simp: push_option_def split: prod.splits sum.splits)
  then show ?thesis using updateOne_Inr by (auto simp: apply_patch_so)
qed

lemma find_Some_id_mem: "find (\<lambda>q. profile_id q = a) ds = Some p \<Longrightarrow> a \<in> set (map profile_id ds)"
  by (induction ds) (auto split: if_splits)

lemma holders_Cons_ids:
  "filter (\<lambda>p. oid \<in> set (shipping_options p)) ds = p0 # ps \<Longrightarrow> holders oid ds = profile_id p0 # map profile_id ps"
  by (simp add: holders_def)

lemma matches_option: "matches (ByShippingOption x) = (\<lambda>q. x \<in> set (shipping_options q))"
  by (rule ext) simp

lemma addShippingOption_step:
  assumes dist: "distinct (map profile_id (docs s))"
    and excl: "length (holders (option_id so) (docs s)) \<le> 1"
    and so: "shippingOptionService_retrieve d optionId = Inr so"
    and v: "objectId d a = Some a"
    and ok: "addShippingOption d a optionId s = (Inr u, s')"
  shows "holders (option_id so) (docs s') = [a] \<and>
         map profile_id (docs s') = map profile_id (docs s) \<and>
         (o' \<noteq> option_id so \<longrightarrow> holders o' (docs s') = holders o' (docs s))"
proof -
  let ?oid = "option_id so"
  obtain r1 s1 where r: "retrieve d a s = (r1, s1)" by (cases "retrieve d a s")
  with ok obtain p where p: "r1 = Inr p"
    by (cases r1) (auto simp: addShippingOption_def)
  with r v have d1: "docs s1 = docs s" and fp: "find (\<lambda>q. profile_id q = a) (docs s) = Some p"
    using retrieve_Inr [of d a s p s1] by auto
  have amem: "a \<in> set (map profile_id (docs s))"
    using fp by (rule find_Some_id_mem)
  show ?thesis
  proof (cases "found ?oid (shipping_options p)")
    case True
    with ok r p so have "s' = s1" by (simp add: addShippingOption_def)
    with d1 have same: "docs s' = docs s" by simp
    have "p \<in> set (docs s)" using fp by (rule find_in_set)
    moreover have "?oid \<in> set (shipping_options p)" using True by (simp add: found_iff)
    moreover have "profile_id p = a" using fp by (rule find_profile_id)
    ultimately have "a \<in> set (holders ?oid (docs s))" by (auto simp: holders_def)
    with excl have "holders ?oid (docs s) = [a]"
      by (cases "holders ?oid (docs s)") auto
    with same show ?thesis by simp
  next
    case False
    obtain r2 s2 where l: "list (ByShippingOption ?oid) s1 = (r2, s2)"
      by (cases "list (ByShippingOption ?oid) s1")
    with ok r p so False obtain hs where hs: "r2 = Inr hs"
      by (cases r2) (auto simp: addShippingOption_def)
    with l d1 have d2: "docs s2 = docs s"
      and hsf: "hs = filter (\<lambda>q. ?oid \<in> set (shipping_options q)) (docs s)"
      using list_Inr [of "ByShippingOption ?oid" s1 hs s2] by (auto simp: matches_option)
    show ?thesis
    proof (cases hs)
      case Nil
      with ok r p so False l hs have "push_option d a ?oid s2 = (Inr u, s')"
        by (simp add: addShippingOption_def)
      then have ds': "docs s' = update_first a (push_so ?oid) (docs s)"
        using push_option_Inr d2 by simp
      have "holders ?oid (docs s) = []" using Nil hsf by (simp add: holders_def)
      then have "holders ?oid (docs s') = [a]"
        using amem ds' push_holders by simp
      moreover have "map profile_id (docs s') = map profile_id (docs s)"
        using ds' by (simp add: ids_update_first push_so_def)
      moreover have "o' \<noteq> ?oid \<longrightarrow> holders o' (docs s') = holders o' (docs s)"
        using ds' by (simp add: others_holders)
      ultimately show ?thesis by simp
    next
      case (Cons p0 ps)
      obtain r3 s3 where rm: "removeShippingOption d (profile_id p0) ?oid s2 = (r3, s3)"
        by (cases "removeShippingOption d (profile_id p0) ?oid s2")
      with ok r p so False l hs Cons obtain u3 where u3: "r3 = Inr u3"
        by (cases r3) (auto simp: addShippingOption_def)
      with ok r p so False l hs Cons rm have "push_option d a ?oid s3 = (Inr u, s')"
        by (simp add: addShippingOption_def)
      then have ds': "docs s' = update_first a (push_so ?oid) (docs s3)"
        using push_option_Inr by simp
      have d3: "docs s3 = update_first (profile_id p0) (pull_so ?oid) (docs s)"
        using rm u3 removeShippingOption_Inr d2 by simp
      have "holders ?oid (docs s) = profile_id p0 # map profile_id ps"
        using Cons hsf holders_Cons_ids [of ?oid "docs s" p0 ps] by simp
      with excl have h0: "holders ?oid (docs s) = [profile_id p0]" by simp
      have ids3: "map profile_id (docs s3) = map profile_id (docs s)"
        using d3 by (simp add: ids_update_first pull_so_def)
      have "holders ?oid (docs s3) = []"
        using d3 pull_holders [OF dist h0] by simp
      then have "holders ?oid (docs s') = [a]"
        using amem ids3 ds' push_holders [of ?oid "docs s3" a] by simp
      moreover have "map profile_id (docs s') = map profile_id (docs s)"
        using ds' ids3 by (simp add: ids_update_first push_so_def)
      moreover have "o' \<noteq> ?oid \<longrightarrow> holders o' (docs s') = holders o' (docs s)"
        using ds' d3 by (simp add: others_holders)
      ultimately show ?thesis by simp
    qed
  qed
qed

lemma holders_single_iff:
  assumes "distinct (map profile_id ds)"
    and "holders oid ds = [b]"
    and "find (\<lambda>q. profile_id q = x) ds = Some p"
  shows "oid \<in> set (shipping_options p) \<longleftrightarrow> x = b"
proof
  have p: "p \<in> set ds" "profile_id p = x"
    using assms(3) find_in_set find_profile_id by fast+
  {
    assume "oid \<in> set (shipping_options p)"
    with p have "x \<in> set (holders oid ds)" by (auto simp: holders_def)
    with assms(2) show "x = b" by simp
  }
  {
    assume "x = b"
    have "b \<in> set (holders oid ds)" using assms(2) by simp
    then obtain q where q: "q \<in> set ds" "oid \<in> set (shipping_options q)" "profile_id q = b"
      by (auto simp: holders_def)
    have "inj_on profile_id (set ds)" using assms(1) by (simp add: distinct_map)
    with p q \<open>x = b\<close> have "p = q" by (auto dest: inj_onD)
    with q show "oid \<in> set (shipping_options p)" by simp
  }
qed

text \<open>The two calls on the concrete store.\<close>

lemma ids_differ: "idA \<noteq> idB" "idB \<noteq> idA"
  by (simp_all add: idA_def idB_def)

lemmas eval_simps =
  addShippingOption_def removeShippingOption_def push_option_def addProduct_def removeProduct_def
  retrieve_def validateId_def list_def find_docs_def findOne_def updateOne_def access_def found_def
  svc_def store0_def profileA_def profileB_def hex24_idA hex24_idB ids_differ

lemma store0_add_opt2_to_A: "addShippingOption svc idA ''opt2'' store0 = (Inr (), storeA2)"
  by (simp add: eval_simps storeA2_def)

lemma storeA2_add_opt2_to_B: "fst (addShippingOption svc idB ''opt2'' storeA2) = Inr ()"
  by (simp add: eval_simps storeA2_def)

text \<open>
  C3: start from a store whose profile identifiers are unique and in which at most one
  profile holds the option (the exclusivity invariant for it). If
  \<open>addShippingOption(a, opt)\<close> and then \<open>addShippingOption(b, opt)\<close> both succeed, for
  identifiers the validator returns unchanged, then after the first call exactly
  profile \<open>a\<close> holds the option and after the second exactly profile \<open>b\<close>: a stored
  profile has the option in its list if and only if it is profile \<open>b\<close> (so profile
  \<open>a\<close>, when different, does not), and the holders of every other option are unchanged,
  so the invariant is kept for all options.
\<close>

theorem option_moves_to_last_profile:
  assumes "distinct (map profile_id (docs s))"
    and "length (holders (option_id so) (docs s)) \<le> 1"
    and "shippingOptionService_retrieve d optionId = Inr so"
    and "objectId d a = Some a" and "objectId d b = Some b"
    and "addShippingOption d a optionId s = (Inr (), s1)"
    and "addShippingOption d b optionId s1 = (Inr (), s2)"
  shows "holders (option_id so) (docs s1) = [a] \<and>
         holders (option_id so) (docs s2) = [b] \<and>
         (find (\<lambda>q. profile_id q = x) (docs s2) = Some p \<longrightarrow>
            (option_id so \<in> set (shipping_options p) \<longleftrightarrow> x = b)) \<and>
         (o' \<noteq> option_id so \<longrightarrow> holders o' (docs s2) = holders o' (docs s))"
proof -
  have 1: "holders (option_id so) (docs s1) = [a] \<and>
         map profile_id (docs s1) = map profile_id (docs s) \<and>
         (o' \<noteq> option_id so \<longrightarrow> holders o' (docs s1) = holders o' (docs s))"
    using assms(1,2,3,4,6) by (rule addShippingOption_step)
  then have d1: "distinct (map profile_id (docs s1))"
    and e1: "length (holders (option_id so) (docs s1)) \<le> 1"
    using assms(1) by simp_all
  have 2: "holders (option_id so) (docs s2) = [b] \<and>
         map profile_id (docs s2) = map profile_id (docs s1) \<and>
         (o' \<noteq> option_id so \<longrightarrow> holders o' (docs s2) = holders o' (docs s1))"
    using d1 e1 assms(3,5,7) by (rule addShippingOption_step)
  then have d2: "distinct (map profile_id (docs s2))"
    using d1 by simp
  have 3: "find (\<lambda>q. profile_id q = x) (docs s2) = Some p \<longrightarrow>
            (option_id so \<in> set (shipping_options p) \<longleftrightarrow> x = b)"
    using holders_single_iff [OF d2, of "option_id so" b x p] 2 by blast
  from 1 2 3 show ?thesis by simp
qed

theorem option_moves_to_last_profile_witness:
  "holders ''opt2'' (docs store0) = [idB] \<and>
   addShippingOption svc idA ''opt2'' store0 = (Inr (), storeA2) \<and>
   holders ''opt2'' (docs storeA2) = [idA] \<and>
   fst (addShippingOption svc idB ''opt2'' storeA2) = Inr () \<and>
   holders ''opt2'' (docs (snd (addShippingOption svc idB ''opt2'' storeA2))) = [idB] \<and>
   docs (snd (addShippingOption svc idB ''opt2'' storeA2)) =
     [profileA, profileB\<lparr>shipping_options := [''opt2'']\<rparr>] \<and>
   ''opt2'' \<notin> set (shipping_options profileA) \<and>
   holders ''opt1'' (docs (snd (addShippingOption svc idB ''opt2'' storeA2))) = [idA]"
proof -
  have h0: "holders ''opt2'' (docs store0) = [idB]" "holders ''opt1'' (docs store0) = [idA]"
    by (simp_all add: holders_def store0_def profileA_def profileB_def)
  have dist: "distinct (map profile_id (docs store0))"
    by (simp add: store0_def profileA_def profileB_def ids_differ)
  have excl: "length (holders (option_id \<lparr>option_id = ''opt2'', option_name = ''Free Shipping'',
      region_id = ''region''\<rparr>) (docs store0)) \<le> 1"
    using h0 by simp
  have so: "shippingOptionService_retrieve svc ''opt2'' =
      Inr \<lparr>option_id = ''opt2'', option_name = ''Free Shipping'', region_id = ''region''\<rparr>"
    by (simp add: svc_def)
  have va: "objectId svc idA = Some idA" and vb: "objectId svc idB = Some idB"
    by (simp_all add: svc_def hex24_idA hex24_idB)
  have r2: "addShippingOption svc idB ''opt2'' storeA2 =
      (Inr (), snd (addShippingOption svc idB ''opt2'' storeA2))"
    using storeA2_add_opt2_to_B by (simp add: prod_eq_iff)
  have d2: "docs (snd (addShippingOption svc idB ''opt2'' storeA2)) =
     [profileA, profileB\<lparr>shipping_options := [''opt2'']\<rparr>]"
    by (simp add: eval_simps storeA2_def)
  have fa: "find (\<lambda>q. profile_id q = idA) (docs (snd (addShippingOption svc idB ''opt2'' storeA2))) =
      Some profileA"
    unfolding d2 by (simp add: profileA_def)
  have na: "''opt2'' \<notin> set (shipping_options profileA)"
    using option_moves_to_last_profile [OF dist excl so va vb store0_add_opt2_to_A r2, of idA profileA "''opt1''"]
      fa ids_differ
    by simp
  show ?thesis
    using option_moves_to_last_profile [OF dist excl so va vb store0_add_opt2_to_A r2, of idA profileA "''opt1''"]
      h0 store0_add_opt2_to_A storeA2_add_opt2_to_B d2 na
    by simp
qed

section \<open>Idempotent product membership\<close>

lemma svc_product_ids:
  "productService_retrieve svc x = Inr pr \<Longrightarrow> product_id pr \<noteq> []"
  by (auto simp: svc_def split: if_splits)

lemma store0_addProduct_prod2: "docs (snd (addProduct svc idA ''prod2'' store0)) =
     [profileA\<lparr>products := [''prod1'', ''prod2'']\<rparr>, profileB]"
  by (simp add: eval_simps)

lemma store0_removeProduct_prod1:
  "docs (snd (removeProduct svc idA ''prod1'' store0)) = [profileA\<lparr>products := []\<rparr>, profileB]"
  by (simp add: eval_simps)

text \<open>
  C5: when no storage call faults and the product service returns products with a
  non-empty identifier, calling \<open>addProduct\<close> twice with the same arguments leaves the
  same documents as calling it once, and so does \<open>removeProduct\<close>; and \<open>addProduct\<close>
  never appends a duplicate: product lists without duplicates stay without duplicates.
\<close>

theorem membership_idempotent:
  assumes "faults s = []"
    and "\<forall>pr. productService_retrieve d productId = Inr pr \<longrightarrow> product_id pr \<noteq> []"
  shows "docs (snd (addProduct d profileId productId (snd (addProduct d profileId productId s)))) =
           docs (snd (addProduct d profileId productId s)) \<and>
         docs (snd (removeProduct d profileId productId (snd (removeProduct d profileId productId s)))) =
           docs (snd (removeProduct d profileId productId s)) \<and>
         ((\<forall>p \<in> set (docs s). distinct (products p)) \<longrightarrow>
          (\<forall>p \<in> set (docs (snd (addProduct d profileId productId s))). distinct (products p)))"
proof (intro conjI impI)
  have t: "product_id pr \<noteq> []" if "productService_retrieve d productId = Inr pr" for pr
    using that assms(2) by blast
  show "docs (snd (addProduct d profileId productId (snd (addProduct d profileId productId s)))) =
           docs (snd (addProduct d profileId productId s))"
    using addProduct_no_fault [OF assms(1)] 
      addProduct_no_fault(2) [of "snd (addProduct d profileId productId s)" d profileId productId]
      after_addProduct_idem [of d productId profileId "docs s"] t
    by simp
next
  show "docs (snd (removeProduct d profileId productId (snd (removeProduct d profileId productId s)))) =
           docs (snd (removeProduct d profileId productId s))"
    using removeProduct_no_fault [OF assms(1)] 
      removeProduct_no_fault(2) [of "snd (removeProduct d profileId productId s)" d profileId productId]
      after_removeProduct_idem [of d profileId productId "docs s"]
    by simp
next
  assume "\<forall>p \<in> set (docs s). distinct (products p)"
  then show "\<forall>p \<in> set (docs (snd (addProduct d profileId productId s))). distinct (products p)"
    using addProduct_keeps_distinct [of d productId s profileId] assms(2) by blast
qed

theorem membership_idempotent_witness:
  "faults store0 = [] \<and>
   docs (snd (addProduct svc idA ''prod2'' store0)) =
     [profileA\<lparr>products := [''prod1'', ''prod2'']\<rparr>, profileB] \<and>
   docs (snd (addProduct svc idA ''prod2'' (snd (addProduct svc idA ''prod2'' store0)))) =
     [profileA\<lparr>products := [''prod1'', ''prod2'']\<rparr>, profileB] \<and>
   docs (snd (removeProduct svc idA ''prod1'' store0)) = [profileA\<lparr>products := []\<rparr>, profileB] \<and>
   docs (snd (removeProduct svc idA ''prod1'' (snd (removeProduct svc idA ''prod1'' store0)))) =
     [profileA\<lparr>products := []\<rparr>, profileB] \<and>
   list_all (\<lambda>p. distinct (products p)) (docs store0) \<and>
   list_all (\<lambda>p. distinct (products p)) (docs (snd (addProduct svc idA ''prod2'' store0)))"
proof -
  have f: "faults store0 = []"
    by (simp add: store0_def)
  have d0: "list_all (\<lambda>p. distinct (products p)) (docs store0)"
    by (simp add: store0_def profileA_def profileB_def)
  have t2: "\<forall>pr. productService_retrieve svc ''prod2'' = Inr pr \<longrightarrow> product_id pr \<noteq> []"
    using svc_product_ids by blast
  have t1: "\<forall>pr. productService_retrieve svc ''prod1'' = Inr pr \<longrightarrow> product_id pr \<noteq> []"
    using svc_product_ids by blast
  note m2 = membership_idempotent [OF f t2, where profileId = idA]
  note m1 = membership_idempotent [OF f t1, where profileId = idA]
  have a2: "docs (snd (addProduct svc idA ''prod2'' (snd (addProduct svc idA ''prod2'' store0)))) =
     docs (snd (addProduct svc idA ''prod2'' store0))"
    using m2 by (rule conjunct1)
  have r2: "docs (snd (removeProduct svc idA ''prod1'' (snd (removeProduct svc idA ''prod1'' store0)))) =
     docs (snd (removeProduct svc idA ''prod1'' store0))"
    using m1 by blast
  have "\<forall>p \<in> set (docs (snd (addProduct svc idA ''prod2'' store0))). distinct (products p)"
    using m2 d0 unfolding list_all_iff by blast
  then have d1: "list_all (\<lambda>p. distinct (products p)) (docs (snd (addProduct svc idA ''prod2'' store0)))"
    unfolding list_all_iff .
  show ?thesis
    unfolding a2 r2 using f store0_addProduct_prod2 store0_removeProduct_prod1 d0 d1 by (intro conjI)
qed

end
